theory Spec2Isabelle
  imports Main
begin

section \<open>The Observable of src/09-observable/index.js\<close>

text \<open>
  The source is a JavaScript class whose methods close over mutable variables and call
  user-supplied callbacks that may throw. The embedding makes both explicit:

  \<^item> a call is an \<open>action\<close>: it takes the state and returns the state it leaves, together with
    \<open>None\<close> when it returned normally or \<open>Some e\<close> when it threw \<open>e\<close>;
  \<^item> the closure variables \<open>isStopped\<close> and \<open>unsubscribeFn\<close> that one call of \<open>subscribe\<close>
    creates are a \<open>cell\<close>; the state seen by that subscription is a triple
    \<open>(p, c, r)\<close>: \<open>p\<close> is everything on the consumer's side (what the Observer's callbacks
    can reach), \<open>c\<close> the cell, and \<open>r\<close> everything on the producer's side (what the
    cleanup function can reach);
  \<^item> a subscribe-procedure returns an \<open>option\<close>: \<open>None\<close> is a procedure that never
    returns (a synchronous loop without end).
\<close>

subsection \<open>Thrown values and calls\<close>

datatype error = Thrown string | TypeError string | ReferenceError string

type_synonym 's action = "'s \<Rightarrow> error option \<times> 's"

text \<open>Statement sequencing: when the first call throws, the second is not reached.\<close>

definition seq :: "'s action \<Rightarrow> 's action \<Rightarrow> 's action" where
  "seq f g = (\<lambda>s. case f s of (Some e, s') \<Rightarrow> (Some e, s') | (None, s') \<Rightarrow> g s')"

subsection \<open>The closure variables of one subscription (lines 39-40)\<close>

record 'r cell =
  isStopped :: bool
  unsubscribeFn :: "'r action option"

type_synonym ('p, 'r) state = "'p \<times> 'r cell \<times> 'r"

text \<open>
  The subscriber object of lines 42-86 has exactly the three members \<open>next\<close>, \<open>error\<close> and
  \<open>complete\<close>. An Observer has any subset of the three (a missing member is \<open>None\<close>).
\<close>

record ('v, 's) subscriber =
  "next" :: "'v \<Rightarrow> 's action"
  error :: "error \<Rightarrow> 's action"
  complete :: "'s action"

record ('v, 's) observer =
  "next" :: "('v \<Rightarrow> 's action) option"
  error :: "(error \<Rightarrow> 's action) option"
  complete :: "'s action option"

text \<open>The argument of \<open>subscribe\<close>: an Observer object, or a bare function (lines 27-33).\<close>

datatype ('v, 's) observer_arg = Callback "'v \<Rightarrow> 's action" | Object "('v, 's) observer"

definition normalize :: "('v, 's) observer_arg \<Rightarrow> ('v, 's) observer" where
  "normalize observer =
     (case observer of
        Callback f \<Rightarrow> \<lparr>next = Some f, error = None, complete = None\<rparr>
      | Object obs \<Rightarrow> obs)"

subsection \<open>The subscriber's methods (lines 42-86)\<close>

text \<open>
  Line 49 calls \<open>this.error(error)\<close> inside an arrow function, where \<open>this\<close> is the
  receiver of the enclosing method \<open>subscribe\<close>: the Observable. The class defines
  \<open>subscribe\<close>, \<open>map\<close>, \<open>filter\<close>, \<open>take\<close> and \<open>skip\<close> (and the statics \<open>from\<close> and
  \<open>of\<close>) but no member \<open>error\<close>, so the call throws a TypeError and the caught value
  is lost.
\<close>

definition this_error :: "error \<Rightarrow> 's action" where
  "this_error e = (\<lambda>s. (Some (TypeError ''this.error is not a function''), s))"

definition subscriber_next :: "('v, ('p, 'r) state) observer \<Rightarrow> 'v \<Rightarrow> ('p, 'r) state action" where
  "subscriber_next normalizedObserver v = (\<lambda>(p, c, r).
     if \<not> isStopped c then
       (case next normalizedObserver of
          None \<Rightarrow> (None, (p, c, r))
        | Some h \<Rightarrow>
           (case h v (p, c, r) of
              (None, s') \<Rightarrow> (None, s')
            | (Some e, s') \<Rightarrow> this_error e s'))
     else (None, (p, c, r)))"

text \<open>
  \<open>if (unsubscribeFn) { unsubscribeFn(); unsubscribeFn = null; }\<close>, the tail shared by
  \<open>error\<close>, \<open>complete\<close> and \<open>unsubscribe\<close>. When the cleanup throws, the assignment is
  not reached.
\<close>

definition run_cleanup :: "('r cell \<times> 'r) action" where
  "run_cleanup = (\<lambda>(c, r).
     case unsubscribeFn c of
       None \<Rightarrow> (None, (c, r))
     | Some f \<Rightarrow>
        (case f r of
           (Some e, r') \<Rightarrow> (Some e, (c, r'))
         | (None, r') \<Rightarrow> (None, (c\<lparr>unsubscribeFn := None\<rparr>, r'))))"

definition on_subscription :: "('r cell \<times> 'r) action \<Rightarrow> ('p, 'r) state action" where
  "on_subscription f = (\<lambda>(p, c, r). case f (c, r) of (x, (c', r')) \<Rightarrow> (x, (p, c', r')))"

definition stop :: "('p, 'r) state \<Rightarrow> ('p, 'r) state" where
  "stop = (\<lambda>(p, c, r). (p, c\<lparr>isStopped := True\<rparr>, r))"

text \<open>\<open>try { h() } catch (e) { }\<close>: whatever the handler throws is dropped.\<close>

definition swallow :: "'s action option \<Rightarrow> 's \<Rightarrow> 's" where
  "swallow h s = (case h of None \<Rightarrow> s | Some f \<Rightarrow> snd (f s))"

definition subscriber_error :: "('v, ('p, 'r) state) observer \<Rightarrow> error \<Rightarrow> ('p, 'r) state action" where
  "subscriber_error normalizedObserver e = (\<lambda>(p, c, r).
     if \<not> isStopped c then
       on_subscription run_cleanup
         (swallow (map_option (\<lambda>h. h e) (error normalizedObserver)) (stop (p, c, r)))
     else (None, (p, c, r)))"

definition subscriber_complete :: "('v, ('p, 'r) state) observer \<Rightarrow> ('p, 'r) state action" where
  "subscriber_complete normalizedObserver = (\<lambda>(p, c, r).
     if \<not> isStopped c then
       on_subscription run_cleanup
         (swallow (complete normalizedObserver) (stop (p, c, r)))
     else (None, (p, c, r)))"

definition make_subscriber :: "('v, ('p, 'r) state) observer \<Rightarrow> ('v, ('p, 'r) state) subscriber" where
  "make_subscriber normalizedObserver =
     \<lparr>subscriber.next = subscriber_next normalizedObserver,
      subscriber.error = subscriber_error normalizedObserver,
      subscriber.complete = subscriber_complete normalizedObserver\<rparr>"

subsection \<open>The Subscription (lines 107-118)\<close>

definition unsubscribe :: "('r cell \<times> 'r) action" where
  "unsubscribe = (\<lambda>(c, r).
     if \<not> isStopped c then run_cleanup (c\<lparr>isStopped := True\<rparr>, r)
     else (None, (c, r)))"

subsection \<open>subscribe (lines 22-119)\<close>

text \<open>
  What a subscribe-procedure hands back: nothing usable, a function, or an object
  with a member \<open>unsubscribe\<close> that is a function (lines 92-97).
\<close>

datatype 'r returned = Undefined | Function "'r action" | Unsubscribable "'r action"

datatype ('v, 'p, 'r) Observable =
  Observable (subscribeFn:
    "('v, ('p, 'r) state) subscriber \<Rightarrow> ('p, 'r) state
       \<Rightarrow> ((error + 'r returned) \<times> ('p, 'r) state) option")

definition register :: "'r returned \<Rightarrow> ('p, 'r) state \<Rightarrow> ('p, 'r) state" where
  "register cleanup = (\<lambda>(p, c, r).
     case cleanup of
       Function f \<Rightarrow> (p, c\<lparr>unsubscribeFn := Some f\<rparr>, r)
     | Unsubscribable f \<Rightarrow> (p, c\<lparr>unsubscribeFn := Some f\<rparr>, r)
     | Undefined \<Rightarrow> (p, c, r))"

text \<open>
  \<open>subscribe\<close> allocates the cell, runs the subscribe-procedure on the new
  subscriber, and returns: the Subscription it returns is the cell it leaves in the
  state, on which \<open>unsubscribe\<close> acts.
\<close>

definition subscribe ::
  "('v, 'p, 'r) Observable \<Rightarrow> ('v, ('p, 'r) state) observer_arg \<Rightarrow> 'p \<times> 'r
     \<Rightarrow> (error option \<times> ('p, 'r) state) option" where
  "subscribe this observer = (\<lambda>(p, r).
     case subscribeFn this (make_subscriber (normalize observer))
            (p, \<lparr>isStopped = False, unsubscribeFn = None\<rparr>, r) of
       None \<Rightarrow> None
     | Some (Inr cleanup, s') \<Rightarrow> Some (None, register cleanup s')
     | Some (Inl e, s') \<Rightarrow> Some (subscriber_error (normalize observer) e s'))"

subsection \<open>Observable.from and Observable.of (lines 262-291)\<close>

text \<open>
  Line 271 reads \<open>subscriber.isStopped\<close>. The subscriber object has no such member
  (the flag is the closure variable of line 39), so the read yields \<open>undefined\<close>, which
  is falsy.
\<close>

definition subscriber_isStopped :: "('v, 's) subscriber \<Rightarrow> bool" where
  "subscriber_isStopped subscriber = False"

fun from_loop :: "('v, 's) subscriber \<Rightarrow> 'v list \<Rightarrow> 's action" where
  "from_loop subscriber [] s = (None, s)"
| "from_loop subscriber (v # array) s =
     (if subscriber_isStopped subscriber then (None, s)
      else seq (subscriber.next subscriber v) (from_loop subscriber array) s)"

definition Observable_from :: "'v list \<Rightarrow> ('v, 'p, 'r) Observable" where
  "Observable_from array = Observable (\<lambda>subscriber s.
     case seq (from_loop subscriber array) (subscriber.complete subscriber) s of
       (Some e, s') \<Rightarrow> Some (Inl e, s')
     | (None, s') \<Rightarrow> Some (Inr (Function (\<lambda>r. (None, r))), s'))"

definition Observable_of :: "'v list \<Rightarrow> ('v, 'p, 'r) Observable" where
  "Observable_of values = Observable_from values"

subsection \<open>Consumers\<close>

text \<open>
  A consumer's Observer is given over the consumer's own state \<open>'p\<close>; \<open>consumer\<close> places
  it in a subscription, where its callbacks reach the first component only. A
  callback that calls back into its own subscription is outside this model: the
  Subscription is not yet in the consumer's hands while \<open>subscribe\<close> runs, and later such
  a call is one more entry in the sequence of calls that follow.
\<close>

definition on_consumer :: "'p action \<Rightarrow> ('p \<times> 'x) action" where
  "on_consumer f = (\<lambda>(p, x). case f p of (e, p') \<Rightarrow> (e, (p', x)))"

definition consumer :: "('v, 'p) observer \<Rightarrow> ('v, 'p \<times> 'x) observer" where
  "consumer obs =
     \<lparr>next = map_option (\<lambda>h v. on_consumer (h v)) (next obs),
      error = map_option (\<lambda>h e. on_consumer (h e)) (error obs),
      complete = map_option on_consumer (complete obs)\<rparr>"

text \<open>A probe: the Observer that records every invocation of its callbacks.\<close>

datatype 'v event = NextEv 'v | ErrorEv error | CompleteEv

definition recorder :: "('v, 'v event list) observer" where
  "recorder =
     \<lparr>next = Some (\<lambda>v log. (None, log @ [NextEv v])),
      error = Some (\<lambda>e log. (None, log @ [ErrorEv e])),
      complete = Some (\<lambda>log. (None, log @ [CompleteEv]))\<rparr>"

text \<open>What a subscription has delivered to a consumer whose \<open>next\<close> never throws.\<close>

definition deliver :: "('v, 'p) observer \<Rightarrow> 'v list \<Rightarrow> 'p \<Rightarrow> 'p" where
  "deliver obs vs p = fold (\<lambda>v p. case next obs of None \<Rightarrow> p | Some h \<Rightarrow> snd (h v p)) vs p"

subsection \<open>Producers\<close>

text \<open>
  A subscribe-procedure written by a user is a program over the subscriber it is
  given. \<open>Emit\<close> is a plain call \<open>subscriber.m(...)\<close>: when the call throws, the exception
  leaves the procedure. \<open>Try\<close> is the same call inside \<open>try { } catch (e) { }\<close>.
  \<open>Update\<close> is a statement on the producer's own state. The procedure ends by returning
  a value or by throwing.
\<close>

datatype 'v signal = Next 'v | Error error | Complete

fun send :: "('v, 's) subscriber \<Rightarrow> 'v signal \<Rightarrow> 's action" where
  "send subscriber (Next v) = subscriber.next subscriber v"
| "send subscriber (Error e) = subscriber.error subscriber e"
| "send subscriber Complete = subscriber.complete subscriber"

datatype ('v, 'r) producer =
    Return "'r returned"
  | Throw error
  | Emit "'v signal" "('v, 'r) producer"
  | Try "'v signal" "('v, 'r) producer"
  | Update "'r \<Rightarrow> 'r" "('v, 'r) producer"

fun run_producer ::
  "('v, 'r) producer \<Rightarrow> ('v, ('p, 'r) state) subscriber \<Rightarrow> ('p, 'r) state
     \<Rightarrow> (error + 'r returned) \<times> ('p, 'r) state" where
  "run_producer (Return cleanup) subscriber s = (Inr cleanup, s)"
| "run_producer (Throw e) subscriber s = (Inl e, s)"
| "run_producer (Emit sig rest) subscriber s =
     (case send subscriber sig s of
        (Some e, s') \<Rightarrow> (Inl e, s')
      | (None, s') \<Rightarrow> run_producer rest subscriber s')"
| "run_producer (Try sig rest) subscriber s =
     run_producer rest subscriber (snd (send subscriber sig s))"
| "run_producer (Update f rest) subscriber s =
     run_producer rest subscriber (case s of (p, c, r) \<Rightarrow> (p, c, f r))"

definition scripted :: "('v, 'r) producer \<Rightarrow> ('v, 'p, 'r) Observable" where
  "scripted P = Observable (\<lambda>subscriber s. Some (run_producer P subscriber s))"

text \<open>
  After \<open>subscribe\<close> has returned, a producer that kept the subscriber (in a timer, say)
  calls it again, and the holder of the Subscription may call \<open>unsubscribe\<close>. Each is a
  call of its own: what it throws goes to its caller and the state stays as the call
  left it.
\<close>

datatype 'v call = Signal "'v signal" | Unsubscribe

fun later :: "('v, ('p, 'r) state) observer \<Rightarrow> 'v call \<Rightarrow> ('p, 'r) state \<Rightarrow> ('p, 'r) state" where
  "later obs (Signal sig) s = snd (send (make_subscriber obs) sig s)"
| "later obs Unsubscribe s = snd (on_subscription unsubscribe s)"

text \<open>
  The producer \<open>subscriber => { let i = 0; while (true) subscriber.next(i++); return cleanup }\<close>:
  the loop is left only by an exception, and the \<open>return\<close> is never reached.
\<close>

partial_function (option) emit_forever ::
  "(nat, 's) subscriber \<Rightarrow> nat \<Rightarrow> 's \<Rightarrow> ((error + 'k) \<times> 's) option" where
  "emit_forever subscriber i s =
     (case subscriber.next subscriber i s of
        (Some e, s') \<Rightarrow> Some (Inl e, s')
      | (None, s') \<Rightarrow> emit_forever subscriber (i + 1) s')"

definition infinite_producer :: "(nat, 'p, 'r) Observable" where
  "infinite_producer = Observable (\<lambda>subscriber s. emit_forever subscriber 0 s)"

subsection \<open>Operators (lines 126-150 and 190-223)\<close>

text \<open>
  An operator's subscribe-procedure runs inside the downstream subscription and
  subscribes to the upstream Observable. Its closure variables \<open>'l\<close> and the upstream
  subscription's cell sit on the producer's side of the downstream subscription, in
  front of the source's own state; they are \<open>None\<close> until the procedure creates them.
  The same state, seen by the upstream subscription, has the downstream cell and the
  operator's variables on the consumer's side.
\<close>

type_synonym ('l, 'r) upstream = "('l \<times> 'r cell) option \<times> 'r"

type_synonym ('p, 'l, 'r) outer = "('p, ('l, 'r) upstream) state"

type_synonym ('p, 'l, 'r) inner = "('p \<times> ('l, 'r) upstream cell \<times> 'l, 'r) state"

text \<open>A call on the downstream subscriber, made from the operator's Observer.\<close>

definition downstream :: "('p, 'l, 'r) outer action \<Rightarrow> ('p, 'l, 'r) inner action" where
  "downstream f = (\<lambda>((p, d, l), u, r).
     case f (p, d, (Some (l, u), r)) of
       (x, (p', d', (Some (l', u'), r'))) \<Rightarrow> (x, ((p', d', l'), u', r'))
     | (x, (p', d', (None, r'))) \<Rightarrow> (x, ((p', d', l), u, r')))"

text \<open>A call on the upstream subscriber or Subscription, made from outside.\<close>

definition upstream :: "('p, 'l, 'r) inner action \<Rightarrow> ('p, 'l, 'r) outer action" where
  "upstream f = (\<lambda>(p, d, (env, r)).
     case env of
       None \<Rightarrow> (None, (p, d, (None, r)))
     | Some (l, u) \<Rightarrow>
        (case f ((p, d, l), u, r) of (x, ((p', d', l'), u', r')) \<Rightarrow> (x, (p', d', (Some (l', u'), r')))))"

text \<open>The cleanup every operator returns: \<open>() => subscription.unsubscribe()\<close>.\<close>

definition unsubscribe_upstream :: "('l, 'r) upstream action" where
  "unsubscribe_upstream = (\<lambda>(env, r).
     case env of
       None \<Rightarrow> (None, (None, r))
     | Some (l, u) \<Rightarrow> (case unsubscribe (u, r) of (x, (u', r')) \<Rightarrow> (x, (Some (l, u'), r'))))"

text \<open>
  \<open>map\<close>: the transform is a function that returns a value or throws. The \<open>try\<close> of
  lines 136-142 covers the call of the transform and the call of \<open>subscriber.next\<close>.
\<close>

definition map_next ::
  "('a \<Rightarrow> error + 'b) \<Rightarrow> ('b, ('p, unit, 'r) outer) subscriber \<Rightarrow> 'a \<Rightarrow> ('p, unit, 'r) inner action" where
  "map_next fn subscriber v =
     (case fn v of
        Inl e \<Rightarrow> downstream (subscriber.error subscriber e)
      | Inr transformedValue \<Rightarrow> (\<lambda>s.
          case downstream (subscriber.next subscriber transformedValue) s of
            (Some e, s') \<Rightarrow> downstream (subscriber.error subscriber e) s'
          | (None, s') \<Rightarrow> (None, s')))"

definition map_observer ::
  "('a \<Rightarrow> error + 'b) \<Rightarrow> ('b, ('p, unit, 'r) outer) subscriber \<Rightarrow> ('a, ('p, unit, 'r) inner) observer" where
  "map_observer fn subscriber =
     \<lparr>next = Some (map_next fn subscriber),
      error = Some (\<lambda>e. downstream (subscriber.error subscriber e)),
      complete = Some (downstream (subscriber.complete subscriber))\<rparr>"

definition Observable_map ::
  "('a \<Rightarrow> error + 'b) \<Rightarrow> ('a, 'p \<times> (unit, 'r) upstream cell \<times> unit, 'r) Observable
     \<Rightarrow> ('b, 'p, (unit, 'r) upstream) Observable" where
  "Observable_map fn this = Observable (\<lambda>subscriber (p, d, (env, r)).
     case subscribe this (Object (map_observer fn subscriber)) ((p, d, ()), r) of
       None \<Rightarrow> None
     | Some (Some e, ((p', d', l'), u', r')) \<Rightarrow> Some (Inl e, (p', d', (Some (l', u'), r')))
     | Some (None, ((p', d', l'), u', r')) \<Rightarrow>
         Some (Inr (Function unsubscribe_upstream), (p', d', (Some (l', u'), r'))))"

text \<open>
  \<open>take\<close>: the closure variables are \<open>taken\<close> and the constant \<open>subscription\<close>, which is
  in its temporal dead zone (\<open>False\<close>) until the upstream \<open>subscribe\<close> of line 205 has
  returned; reading it before throws a ReferenceError.
\<close>

record take_locals =
  taken :: int
  subscription :: bool

definition subscription_unsubscribe :: "('p, take_locals, 'r) inner action" where
  "subscription_unsubscribe = (\<lambda>((p, d, l), u, r).
     if subscription l then on_subscription unsubscribe ((p, d, l), u, r)
     else (Some (ReferenceError ''Cannot access subscription before initialization''),
           ((p, d, l), u, r)))"

definition take_next ::
  "int \<Rightarrow> ('v, ('p, take_locals, 'r) outer) subscriber \<Rightarrow> 'v \<Rightarrow> ('p, take_locals, 'r) inner action" where
  "take_next count subscriber v = (\<lambda>((p, d, l), u, r).
     if taken l < count then
       seq (downstream (subscriber.next subscriber v))
         (seq (\<lambda>((p, d, l), u, r). (None, ((p, d, l\<lparr>taken := taken l + 1\<rparr>), u, r)))
              (\<lambda>((p, d, l), u, r).
                 if taken l \<ge> count then
                   seq (downstream (subscriber.complete subscriber)) subscription_unsubscribe
                     ((p, d, l), u, r)
                 else (None, ((p, d, l), u, r))))
         ((p, d, l), u, r)
     else (None, ((p, d, l), u, r)))"

definition take_observer ::
  "int \<Rightarrow> ('v, ('p, take_locals, 'r) outer) subscriber \<Rightarrow> ('v, ('p, take_locals, 'r) inner) observer" where
  "take_observer count subscriber =
     \<lparr>next = Some (take_next count subscriber),
      error = Some (\<lambda>e. downstream (subscriber.error subscriber e)),
      complete = Some (downstream (subscriber.complete subscriber))\<rparr>"

definition Observable_take ::
  "int \<Rightarrow> ('v, 'p \<times> (take_locals, 'r) upstream cell \<times> take_locals, 'r) Observable
     \<Rightarrow> ('v, 'p, (take_locals, 'r) upstream) Observable" where
  "Observable_take count this = Observable (\<lambda>subscriber (p, d, (env, r)).
     if count \<le> 0 then
       (case subscriber.complete subscriber (p, d, (env, r)) of
          (Some e, s') \<Rightarrow> Some (Inl e, s')
        | (None, s') \<Rightarrow> Some (Inr Undefined, s'))
     else
       (case subscribe this (Object (take_observer count subscriber))
               ((p, d, \<lparr>taken = 0, subscription = False\<rparr>), r) of
          None \<Rightarrow> None
        | Some (Some e, ((p', d', l'), u', r')) \<Rightarrow> Some (Inl e, (p', d', (Some (l', u'), r')))
        | Some (None, ((p', d', l'), u', r')) \<Rightarrow>
            Some (Inr (Function unsubscribe_upstream),
                  (p', d', (Some (l'\<lparr>subscription := True\<rparr>, u'), r')))))"


text \<open>The same probe with a \<open>next\<close> handler that records the call and then throws.\<close>

definition throwing :: "error \<Rightarrow> ('v, 'v event list) observer" where
  "throwing e =
     \<lparr>next = Some (\<lambda>v log. (Some e, log @ [NextEv v])),
      error = Some (\<lambda>e log. (None, log @ [ErrorEv e])),
      complete = Some (\<lambda>log. (None, log @ [CompleteEv]))\<rparr>"

subsection \<open>Vocabulary of the properties\<close>

text \<open>The terminal flag of a subscription, and the calls that set it.\<close>

definition stopped :: "('p, 'r) state \<Rightarrow> bool" where
  "stopped s = isStopped (fst (snd s))"

fun terminal :: "'v call \<Rightarrow> bool" where
  "terminal (Signal (Next v)) = False"
| "terminal (Signal (Error e)) = True"
| "terminal (Signal Complete) = True"
| "terminal Unsubscribe = True"

subsection \<open>take, as the specification words it\<close>


text \<open>
  Section 4.5 of the specification: \<open>take(count)\<close> completes at once when
  \<open>count <= 0\<close>; otherwise it forwards up to \<open>count\<close> values and completes downstream on
  forwarding the \<open>count\<close>-th, and it forwards \<open>error\<close> and \<open>complete\<close>. As a machine over
  the calls that arrive: \<open>Some k\<close> when \<open>k\<close> more values may pass, \<open>None\<close> once the
  downstream subscription is terminal. Each step gives what the consumer receives.
\<close>

fun spec_step :: "nat option \<Rightarrow> 'v call \<Rightarrow> 'v event list \<times> nat option" where
  "spec_step None c = ([], None)"
| "spec_step (Some k) (Signal (Next v)) =
     (if k \<le> 1 then ([NextEv v, CompleteEv], None) else ([NextEv v], Some (k - 1)))"
| "spec_step (Some k) (Signal (Error e)) = ([ErrorEv e], None)"
| "spec_step (Some k) (Signal Complete) = ([CompleteEv], None)"
| "spec_step (Some k) Unsubscribe = ([], None)"

fun spec_run :: "nat option \<Rightarrow> 'v call list \<Rightarrow> 'v event list" where
  "spec_run a [] = []"
| "spec_run a (c # cs) = fst (spec_step a c) @ spec_run (snd (spec_step a c)) cs"

fun spec_state :: "nat option \<Rightarrow> 'v call list \<Rightarrow> nat option" where
  "spec_state a [] = a"
| "spec_state a (c # cs) = spec_state (snd (spec_step a c)) cs"







text \<open>
  A consumer's Observer whose \<open>next\<close> handler returns normally, and the effect on the
  consumer of a sequence of callback invocations.
\<close>

definition quiet ::
  "('v \<Rightarrow> 'p \<Rightarrow> 'p) option \<Rightarrow> (error \<Rightarrow> 'p action) option \<Rightarrow> 'p action option \<Rightarrow> ('v, 'p) observer" where
  "quiet nx er cm = \<lparr>next = map_option (\<lambda>f v p. (None, f v p)) nx, error = er, complete = cm\<rparr>"

fun apply_event :: "('v, 'p) observer \<Rightarrow> 'v event \<Rightarrow> 'p \<Rightarrow> 'p" where
  "apply_event obs (NextEv v) p = (case next obs of None \<Rightarrow> p | Some h \<Rightarrow> snd (h v p))"
| "apply_event obs (ErrorEv e) p = swallow (map_option (\<lambda>h. h e) (error obs)) p"
| "apply_event obs CompleteEv p = swallow (complete obs) p"

definition replay :: "('v, 'p) observer \<Rightarrow> 'v event list \<Rightarrow> 'p \<Rightarrow> 'p" where
  "replay obs evs p = fold (apply_event obs) evs p"

text \<open>The subscriber of a consumer.\<close>

abbreviation "subD obs \<equiv> make_subscriber (consumer obs)"

text \<open>
  A consumer that calls back into the chain. The producer
  \<open>s => { sub = s }\<close> hands the upstream subscriber out, and the consumer's handler is
  \<open>next(v) { log.push(v); if (v === 0) sub.next(1) }\<close>. The value \<open>1\<close> comes back to this
  same handler, where it is only recorded, as the recorder does: the inner delivery is
  written with the recorder's subscriber.
\<close>

definition pushing_back :: "int \<Rightarrow> (nat, (nat event list, take_locals, 'r) outer) observer" where
  "pushing_back count =
     \<lparr>next = Some (\<lambda>v.
        seq (on_consumer (\<lambda>log. (None, log @ [NextEv v])))
            (if v = 0 then upstream (subscriber_next (take_observer count (subD recorder)) 1)
             else (\<lambda>s. (None, s)))),
      error = error (consumer recorder),
      complete = complete (consumer recorder)\<rparr>"

section \<open>Properties\<close>

subsection \<open>Observable.from\<close>

lemma from_loop_consumer:
  assumes "\<forall>h v p. next obs = Some h \<longrightarrow> fst (h v p) = None" and "\<not> isStopped c"
  shows "from_loop (make_subscriber (consumer obs)) S (p, c, r) = (None, (deliver obs S p, c, r))"
proof (induction S arbitrary: p)
  case Nil
  then show ?case by (simp add: deliver_def)
next
  case (Cons v S)
  have step: "subscriber_next (consumer obs) v (p, c, r) = (None, (deliver obs [v] p, c, r))"
  proof (cases "next obs")
    case None
    then show ?thesis using assms(2) by (simp add: subscriber_next_def consumer_def deliver_def)
  next
    case (Some h)
    moreover from assms(1) Some have "fst (h v p) = None" by blast
    ultimately show ?thesis using assms(2)
      by (cases "h v p") (simp add: subscriber_next_def consumer_def deliver_def on_consumer_def)
  qed
  show ?case using Cons.IH[of "deliver obs [v] p"] step
    by (simp add: subscriber_isStopped_def make_subscriber_def seq_def deliver_def)
qed

text \<open>
  Claim C3. For every array \<open>S\<close> and every Observer whose \<open>next\<close> does not throw,
  subscribing to \<open>Observable.from(S)\<close> returns with the consumer in the state that the
  \<open>next\<close> callback, run once on each element of \<open>S\<close> in order, followed by one run of the
  \<open>complete\<close> callback, leaves; the \<open>error\<close> callback is not run. The subscription is
  terminal and holds the empty cleanup function of \<open>from\<close>.
\<close>

theorem from_delivers_all:
  assumes "\<forall>h v p. next obs = Some h \<longrightarrow> fst (h v p) = None"
  shows "subscribe (Observable_from S) (Object (consumer obs)) (p, r) =
           Some (None, (swallow (complete obs) (deliver obs S p),
                        \<lparr>isStopped = True, unsubscribeFn = Some (\<lambda>r. (None, r))\<rparr>, r))"
proof -
  let ?c = "\<lparr>isStopped = False, unsubscribeFn = None\<rparr> :: 'c cell"
  have loop: "from_loop (make_subscriber (consumer obs)) S (p, ?c, r) = (None, (deliver obs S p, ?c, r))"
    by (rule from_loop_consumer) (simp_all add: assms)
  have fin: "subscriber_complete (consumer obs) (deliver obs S p, ?c, r) =
      (None, (swallow (complete obs) (deliver obs S p), \<lparr>isStopped = True, unsubscribeFn = None\<rparr>, r))"
    by (cases "complete obs")
       (auto simp add: subscriber_complete_def consumer_def swallow_def stop_def on_subscription_def
             run_cleanup_def on_consumer_def split: prod.splits)
  show ?thesis using loop fin
    by (simp add: subscribe_def Observable_from_def normalize_def seq_def make_subscriber_def register_def)
qed

theorem from_delivers_all_witness:
  "subscribe (Observable_from [1, 2, 3 :: nat]) (Object (consumer recorder)) ([], ()) =
     Some (None, ([NextEv 1, NextEv 2, NextEv 3, CompleteEv],
                  \<lparr>isStopped = True, unsubscribeFn = Some (\<lambda>r. (None, r))\<rparr>, ()))"
proof -
  have quiet: "\<forall>h v p. next (recorder :: (nat, nat event list) observer) = Some h \<longrightarrow> fst (h v p) = None"
    by (auto simp add: recorder_def)
  show ?thesis
    using from_delivers_all[OF quiet, of "[1, 2, 3]" "[]" "()"]
    by (simp add: recorder_def deliver_def swallow_def)
qed

text \<open>
  While the loop of \<open>from\<close> runs on the subscriber of a consumer, the closure variables of
  the subscription stay as they are: the subscriber is handed to the subscribe-procedure
  only, and the Subscription is returned after the loop.
\<close>

lemma from_loop_keeps_cell:
  "\<exists>x p'. from_loop (make_subscriber (consumer obs)) S (p, c, r) = (x, (p', c, r))"
proof (induction S arbitrary: p)
  case Nil
  then show ?case by simp
next
  case (Cons v S)
  have "\<exists>x p'. subscriber_next (consumer obs) v (p, c, r) = (x, (p', c, r))"
    by (cases "next obs")
       (auto simp add: subscriber_next_def consumer_def on_consumer_def this_error_def
          split: prod.splits option.splits)
  then obtain x p' where step: "subscriber_next (consumer obs) v (p, c, r) = (x, (p', c, r))"
    by blast
  show ?case
  proof (cases x)
    case None
    then show ?thesis using step Cons.IH[of p']
      by (simp add: subscriber_isStopped_def make_subscriber_def seq_def)
  next
    case (Some e)
    then show ?thesis using step
      by (simp add: subscriber_isStopped_def make_subscriber_def seq_def)
  qed
qed

subsection \<open>The terminal flag\<close>

lemma send_stopped:
  "stopped s \<Longrightarrow> send (make_subscriber obs) sig s = (None, s)"
  by (cases sig; cases s)
     (simp_all add: stopped_def make_subscriber_def subscriber_next_def subscriber_error_def
        subscriber_complete_def)

lemma unsubscribe_stopped:
  "isStopped c \<Longrightarrow> unsubscribe (c, r) = (None, (c, r))"
  by (simp add: unsubscribe_def)

lemma unsubscribe_when_stopped:
  "stopped t \<Longrightarrow> on_subscription unsubscribe t = (None, t)"
  by (cases t) (simp add: stopped_def on_subscription_def unsubscribe_stopped)

lemma later_stopped:
  "stopped s \<Longrightarrow> later obs c s = s"
  by (cases c) (simp_all add: send_stopped unsubscribe_when_stopped)

lemma fold_later_stopped:
  "stopped s \<Longrightarrow> fold (later obs) calls s = s"
  by (induction calls) (simp_all add: later_stopped)

lemma unsubscribe_stops:
  "isStopped (fst (snd (unsubscribe (c, r))))"
  by (simp add: unsubscribe_def run_cleanup_def split: option.splits prod.splits)

lemma error_consumer:
  "subscriber_error (consumer obs) e (p, c, r) =
     (if isStopped c then (None, (p, c, r))
      else on_subscription run_cleanup
             (swallow (map_option (\<lambda>h. h e) (error obs)) p, c\<lparr>isStopped := True\<rparr>, r))"
  by (cases "error obs")
     (simp_all add: subscriber_error_def stop_def consumer_def swallow_def on_consumer_def
        split: prod.splits)

lemma complete_consumer:
  "subscriber_complete (consumer obs) (p, c, r) =
     (if isStopped c then (None, (p, c, r))
      else on_subscription run_cleanup (swallow (complete obs) p, c\<lparr>isStopped := True\<rparr>, r))"
  by (cases "complete obs")
     (simp_all add: subscriber_complete_def stop_def consumer_def swallow_def on_consumer_def
        split: prod.splits)

lemma later_terminal_stopped:
  "terminal c \<Longrightarrow> stopped (later (consumer obs) c s)"
proof (cases s)
  case (fields p cl r)
  assume t: "terminal c"
  show ?thesis
  proof (cases c)
    case (Signal sig)
    with t show ?thesis using fields
      by (cases sig)
         (auto simp add: stopped_def make_subscriber_def error_consumer complete_consumer
            on_subscription_def run_cleanup_def split: option.splits prod.splits)
  next
    case Unsubscribe
    then show ?thesis using fields unsubscribe_stops[of cl r]
      by (cases "unsubscribe (cl, r)") (auto simp add: stopped_def on_subscription_def)
  qed
qed

lemma run_producer_stopped:
  "stopped s \<Longrightarrow>
     fst (snd (run_producer P (make_subscriber obs) s)) = fst s \<and>
     stopped (snd (run_producer P (make_subscriber obs) s))"
proof (induction P arbitrary: s)
  case (Update f P)
  obtain p c r where s: "s = (p, c, r)" by (cases s)
  with Update.prems have "stopped (p, c, f r)" by (simp add: stopped_def)
  from Update.IH[OF this] show ?case by (simp add: s)
qed (simp_all add: send_stopped)

text \<open>
  Claim C2. On a subscription whose terminal flag is set, every call of the
  subscriber's \<open>next\<close>, \<open>error\<close> or \<open>complete\<close> returns normally and leaves the whole state
  as it was, whatever the Observer. For a consumer's Observer, a call of \<open>error\<close>, of
  \<open>complete\<close> or of \<open>unsubscribe\<close> sets the flag; after it, no sequence of later calls
  changes the state, and a subscribe-procedure that goes on running leaves the
  consumer's side untouched: no callback of the Observer is invoked again.
\<close>

theorem no_signal_after_terminal:
  "(stopped s \<longrightarrow> send (make_subscriber any) sig s = (None, s)) \<and>
   (terminal c \<longrightarrow>
      stopped (later (consumer obs) c s') \<and>
      fold (later (consumer obs)) calls (later (consumer obs) c s') = later (consumer obs) c s' \<and>
      fst (snd (run_producer P (make_subscriber (consumer obs)) (later (consumer obs) c s')))
        = fst (later (consumer obs) c s'))"
  using send_stopped[of s any sig] later_terminal_stopped[of c obs s']
    fold_later_stopped[of "later (consumer obs) c s'" "consumer obs" calls]
    run_producer_stopped[of "later (consumer obs) c s'" P "consumer obs"]
  by blast

theorem no_signal_after_terminal_witness:
  "send (make_subscriber (consumer recorder)) (Next (1::nat))
     ([CompleteEv], \<lparr>isStopped = True, unsubscribeFn = None\<rparr>, ()) =
     (None, ([CompleteEv], \<lparr>isStopped = True, unsubscribeFn = None\<rparr>, ())) \<and>
   fold (later (consumer recorder))
     [Signal (Next (1::nat)), Signal (Error (Thrown ''late'')), Signal Complete]
     (later (consumer recorder) (Signal Complete) ([], \<lparr>isStopped = False, unsubscribeFn = None\<rparr>, ()))
   = ([CompleteEv], \<lparr>isStopped = True, unsubscribeFn = None\<rparr>, ())"
proof -
  have t: "terminal (Signal Complete :: nat call)" by simp
  have st: "stopped ([CompleteEv :: nat event], \<lparr>isStopped = True, unsubscribeFn = None\<rparr>, ())"
    by (simp add: stopped_def)
  have first: "send (make_subscriber (consumer recorder)) (Next (1::nat))
     ([CompleteEv], \<lparr>isStopped = True, unsubscribeFn = None\<rparr>, ()) =
     (None, ([CompleteEv], \<lparr>isStopped = True, unsubscribeFn = None\<rparr>, ()))"
    using no_signal_after_terminal[where s = "([CompleteEv :: nat event], \<lparr>isStopped = True, unsubscribeFn = None\<rparr>, ())"
        and any = "consumer recorder" and sig = "Next (1::nat)"] st
    by blast
  have "later (consumer recorder) (Signal Complete)
          ([] :: nat event list, \<lparr>isStopped = False, unsubscribeFn = None\<rparr>, ())
        = ([CompleteEv], \<lparr>isStopped = True, unsubscribeFn = None\<rparr>, ())"
    by (simp add: make_subscriber_def complete_consumer recorder_def swallow_def
          on_subscription_def run_cleanup_def)
  moreover have "fold (later (consumer recorder))
       [Signal (Next (1::nat)), Signal (Error (Thrown ''late'')), Signal Complete]
       (later (consumer recorder) (Signal Complete) ([], \<lparr>isStopped = False, unsubscribeFn = None\<rparr>, ()))
     = later (consumer recorder) (Signal Complete) ([], \<lparr>isStopped = False, unsubscribeFn = None\<rparr>, ())"
    using no_signal_after_terminal[where c = "Signal Complete :: nat call"] t by blast
  ultimately have second: "fold (later (consumer recorder))
     [Signal (Next (1::nat)), Signal (Error (Thrown ''late'')), Signal Complete]
     (later (consumer recorder) (Signal Complete) ([], \<lparr>isStopped = False, unsubscribeFn = None\<rparr>, ()))
   = ([CompleteEv], \<lparr>isStopped = True, unsubscribeFn = None\<rparr>, ())"
    by (simp only:)
  from first second show ?thesis by (rule conjI)
qed

subsection \<open>Subscription.unsubscribe\<close>

text \<open>
  Claim C4. \<open>unsubscribe\<close> is idempotent. A call that follows another call changes
  nothing and throws nothing. The first call on a subscription that is not terminal
  sets the flag and runs the registered cleanup once (the producer's side is the
  cleanup applied once; the slot is cleared unless the cleanup threw), or only sets the
  flag when no cleanup is registered. Any number of further calls leaves the state of
  the first, and a call after \<open>error\<close> or \<open>complete\<close> changes nothing and throws nothing.
\<close>

theorem unsubscribe_idempotent:
  "unsubscribe (snd (unsubscribe (c, r))) = (None, snd (unsubscribe (c, r))) \<and>
   unsubscribe (\<lparr>isStopped = False, unsubscribeFn = Some f\<rparr>, r) =
     (fst (f r),
      (\<lparr>isStopped = True, unsubscribeFn = (if fst (f r) = None then None else Some f)\<rparr>,
       snd (f r))) \<and>
   unsubscribe (\<lparr>isStopped = False, unsubscribeFn = None\<rparr>, r) =
     (None, (\<lparr>isStopped = True, unsubscribeFn = None\<rparr>, r)) \<and>
   fold (later any) (replicate n Unsubscribe) (later any Unsubscribe s) = later any Unsubscribe s \<and>
   on_subscription unsubscribe (later (consumer obs) (Signal (Error e)) s) =
     (None, later (consumer obs) (Signal (Error e)) s) \<and>
   on_subscription unsubscribe (later (consumer obs) (Signal Complete) s) =
     (None, later (consumer obs) (Signal Complete) s)"
proof -
  have twice: "unsubscribe (snd (unsubscribe (c, r))) = (None, snd (unsubscribe (c, r)))"
    using unsubscribe_stops[of c r] by (cases "unsubscribe (c, r)") (simp add: unsubscribe_stopped)
  have first: "unsubscribe (\<lparr>isStopped = False, unsubscribeFn = Some f\<rparr>, r) =
     (fst (f r),
      (\<lparr>isStopped = True, unsubscribeFn = (if fst (f r) = None then None else Some f)\<rparr>,
       snd (f r)))"
    by (cases "f r") (auto simp add: unsubscribe_def run_cleanup_def)
  have none: "unsubscribe (\<lparr>isStopped = False, unsubscribeFn = None\<rparr>, r) =
     (None, (\<lparr>isStopped = True, unsubscribeFn = None\<rparr>, r))"
    by (simp add: unsubscribe_def run_cleanup_def)
  have st: "stopped (later any Unsubscribe s)"
    using unsubscribe_stops[of "fst (snd s)" "snd (snd s)"]
    by (cases s; cases "unsubscribe (fst (snd s), snd (snd s))")
       (auto simp add: stopped_def on_subscription_def)
  have many: "fold (later any) (replicate n Unsubscribe) (later any Unsubscribe s)
                = later any Unsubscribe s"
    by (rule fold_later_stopped[OF st])
  have e: "on_subscription unsubscribe (later (consumer obs) (Signal (Error e)) s) =
     (None, later (consumer obs) (Signal (Error e)) s)"
    by (rule unsubscribe_when_stopped, rule later_terminal_stopped) simp
  have c: "on_subscription unsubscribe (later (consumer obs) (Signal Complete) s) =
     (None, later (consumer obs) (Signal Complete) s)"
    by (rule unsubscribe_when_stopped, rule later_terminal_stopped) simp
  from twice first none many e c show ?thesis by blast
qed

subsection \<open>A throwing consumer\<close>

text \<open>
  Claim C1 (the code departs from it). When the Observer's \<open>next\<close> throws \<open>e\<close>, the
  subscriber's \<open>next\<close> does not reach the subscription's error path: it throws a
  TypeError to its caller, \<open>e\<close> is lost, the \<open>error\<close> callback is not invoked and the
  subscription is not terminated. When the caller is a subscribe-procedure that lets
  the exception pass, \<open>subscribe\<close> catches the TypeError, and the \<open>error\<close> callback
  receives the TypeError in place of \<open>e\<close>.
\<close>

theorem next_throw_escapes:
  "subscriber_next (consumer (throwing e)) v ([], \<lparr>isStopped = False, unsubscribeFn = None\<rparr>, r) =
     (Some (TypeError ''this.error is not a function''),
      ([NextEv v], \<lparr>isStopped = False, unsubscribeFn = None\<rparr>, r)) \<and>
   subscribe (scripted (Emit (Next v) (Return Undefined))) (Object (consumer (throwing e))) ([], r) =
     Some (None,
           ([NextEv v, ErrorEv (TypeError ''this.error is not a function'')],
            \<lparr>isStopped = True, unsubscribeFn = None\<rparr>, r))"
proof -
  have call: "subscriber_next (consumer (throwing e)) v
                ([], \<lparr>isStopped = False, unsubscribeFn = None\<rparr>, r) =
     (Some (TypeError ''this.error is not a function''),
      ([NextEv v], \<lparr>isStopped = False, unsubscribeFn = None\<rparr>, r))"
    by (simp add: subscriber_next_def consumer_def throwing_def on_consumer_def this_error_def)
  have "subscriber_error (consumer (throwing e)) (TypeError ''this.error is not a function'')
          ([NextEv v], \<lparr>isStopped = False, unsubscribeFn = None\<rparr>, r) =
        (None, ([NextEv v, ErrorEv (TypeError ''this.error is not a function'')],
                \<lparr>isStopped = True, unsubscribeFn = None\<rparr>, r))"
    by (simp add: error_consumer throwing_def swallow_def on_subscription_def run_cleanup_def)
  with call show ?thesis
    by (simp add: subscribe_def scripted_def normalize_def make_subscriber_def)
qed

subsection \<open>Subscribe-procedures that terminate or throw before they return\<close>

lemma send_consumer_no_cleanup:
  assumes "unsubscribeFn c = None"
  shows "unsubscribeFn (fst (snd (snd (send (make_subscriber (consumer obs)) sig (p, c, r))))) = None"
proof (cases sig)
  case (Next v)
  show ?thesis
  proof (cases "next obs")
    case None
    then show ?thesis using Next assms
      by (simp add: make_subscriber_def subscriber_next_def consumer_def)
  next
    case (Some h)
    then show ?thesis using Next assms
      by (cases "h v p") (auto simp add: make_subscriber_def subscriber_next_def consumer_def
            on_consumer_def this_error_def split: option.splits)
  qed
next
  case (Error e)
  then show ?thesis using assms
    by (simp add: make_subscriber_def error_consumer on_subscription_def run_cleanup_def)
next
  case Complete
  then show ?thesis using assms
    by (simp add: make_subscriber_def complete_consumer on_subscription_def run_cleanup_def)
qed

lemma run_producer_no_cleanup:
  "unsubscribeFn (fst (snd s)) = None \<Longrightarrow>
     unsubscribeFn (fst (snd (snd (run_producer P (make_subscriber (consumer obs)) s)))) = None"
proof (induction P arbitrary: s)
  case (Return x)
  then show ?case by simp
next
  case (Throw x)
  then show ?case by simp
next
  case (Emit sig P)
  obtain p c r where s: "s = (p, c, r)" by (cases s)
  obtain x s' where r: "send (make_subscriber (consumer obs)) sig (p, c, r) = (x, s')"
    by (cases "send (make_subscriber (consumer obs)) sig (p, c, r)")
  have n: "unsubscribeFn (fst (snd s')) = None"
    using send_consumer_no_cleanup[of c obs sig p r] Emit.prems r s by simp
  show ?case
  proof (cases x)
    case None
    then show ?thesis using Emit.IH[OF n] r s by simp
  next
    case (Some e)
    then show ?thesis using n r s by simp
  qed
next
  case (Try sig P)
  obtain p c r where s: "s = (p, c, r)" by (cases s)
  have "unsubscribeFn (fst (snd (snd (send (make_subscriber (consumer obs)) sig s)))) = None"
    using send_consumer_no_cleanup[of c obs sig p r] Try.prems s by simp
  from Try.IH[OF this] show ?case by simp
next
  case (Update f P)
  obtain p c r where s: "s = (p, c, r)" by (cases s)
  with Update.prems have "unsubscribeFn (fst (snd (p, c, f r))) = None" by simp
  from Update.IH[OF this] show ?case by (simp add: s)
qed

text \<open>
  Claim C10. When a subscribe-procedure has set the terminal flag of its subscription
  before it returns a cleanup function \<open>f\<close>, \<open>subscribe\<close> stores \<open>f\<close> in the cleanup slot,
  which was still empty, of a subscription that is already terminal. No later call of
  \<open>unsubscribe\<close>, \<open>next\<close>, \<open>error\<close> or \<open>complete\<close> changes the state: the producer's side,
  on which \<open>f\<close> would act, stays as it is and the slot keeps \<open>f\<close>, so \<open>f\<close> is never
  invoked.
\<close>

theorem late_cleanup_never_invoked:
  assumes "run_producer P (make_subscriber (consumer obs))
             (p, \<lparr>isStopped = False, unsubscribeFn = None\<rparr>, r) = (Inr (Function f), (p', c', r'))"
      and "isStopped c'"
  shows "subscribe (scripted P) (Object (consumer obs)) (p, r) =
           Some (None, (p', \<lparr>isStopped = True, unsubscribeFn = Some f\<rparr>, r')) \<and>
         fold (later (consumer obs)) calls (p', \<lparr>isStopped = True, unsubscribeFn = Some f\<rparr>, r') =
           (p', \<lparr>isStopped = True, unsubscribeFn = Some f\<rparr>, r')"
proof -
  have "unsubscribeFn c' = None"
    using run_producer_no_cleanup[of "(p, \<lparr>isStopped = False, unsubscribeFn = None\<rparr>, r)" P obs] assms(1)
    by simp
  with assms(2) have c': "c' = \<lparr>isStopped = True, unsubscribeFn = None\<rparr>" by (cases c') simp
  have "subscribe (scripted P) (Object (consumer obs)) (p, r) =
           Some (None, (p', \<lparr>isStopped = True, unsubscribeFn = Some f\<rparr>, r'))"
    using assms(1) c' by (simp add: subscribe_def scripted_def normalize_def register_def)
  moreover have "fold (later (consumer obs)) calls (p', \<lparr>isStopped = True, unsubscribeFn = Some f\<rparr>, r') =
           (p', \<lparr>isStopped = True, unsubscribeFn = Some f\<rparr>, r')"
    by (rule fold_later_stopped) (simp add: stopped_def)
  ultimately show ?thesis by simp
qed

theorem late_cleanup_never_invoked_witness:
  "subscribe (scripted (Emit Complete (Return (Function (\<lambda>n. (None, Suc n))))))
       (Object (consumer recorder)) ([] :: nat event list, 0 :: nat) =
     Some (None, ([CompleteEv], \<lparr>isStopped = True, unsubscribeFn = Some (\<lambda>n. (None, Suc n))\<rparr>, 0)) \<and>
   fold (later (consumer recorder)) [Unsubscribe, Signal Complete, Unsubscribe]
       ([CompleteEv] :: nat event list, \<lparr>isStopped = True, unsubscribeFn = Some (\<lambda>n. (None, Suc n))\<rparr>, 0 :: nat) =
     ([CompleteEv], \<lparr>isStopped = True, unsubscribeFn = Some (\<lambda>n. (None, Suc n))\<rparr>, 0)"
proof -
  have run: "run_producer (Emit Complete (Return (Function (\<lambda>n. (None, Suc n)))))
          (make_subscriber (consumer recorder))
          ([] :: nat event list, \<lparr>isStopped = False, unsubscribeFn = None\<rparr>, 0 :: nat) =
        (Inr (Function (\<lambda>n. (None, Suc n))), ([CompleteEv], \<lparr>isStopped = True, unsubscribeFn = None\<rparr>, 0))"
    by (simp add: make_subscriber_def complete_consumer recorder_def swallow_def
          on_subscription_def run_cleanup_def)
  have st: "isStopped \<lparr>isStopped = True, unsubscribeFn = None :: nat action option\<rparr>" by simp
  show ?thesis by (rule late_cleanup_never_invoked[OF run st])
qed

text \<open>
  Claim C8, as amended. When a subscribe-procedure throws \<open>e\<close>, \<open>subscribe\<close> returns
  normally with a terminal subscription. The Observer's \<open>error\<close> callback, if present,
  is run once on \<open>e\<close> when the subscription was not terminal at the throw; when the
  procedure had already terminated the subscription, \<open>e\<close> is dropped and the
  consumer's side stays as the procedure left it.
\<close>

theorem producer_throw_delivered:
  assumes "run_producer P (make_subscriber (consumer obs))
             (p, \<lparr>isStopped = False, unsubscribeFn = None\<rparr>, r) = (Inl e, (p', c', r'))"
  shows "subscribe (scripted P) (Object (consumer obs)) (p, r) =
           Some (None,
                 (if isStopped c' then p' else swallow (map_option (\<lambda>h. h e) (error obs)) p',
                  \<lparr>isStopped = True, unsubscribeFn = None\<rparr>, r'))"
proof -
  have n: "unsubscribeFn c' = None"
    using run_producer_no_cleanup[of "(p, \<lparr>isStopped = False, unsubscribeFn = None\<rparr>, r)" P obs] assms
    by simp
  show ?thesis
  proof (cases "isStopped c'")
    case True
    with n have "c' = \<lparr>isStopped = True, unsubscribeFn = None\<rparr>" by (cases c') simp
    then show ?thesis using assms
      by (simp add: subscribe_def scripted_def normalize_def error_consumer)
  next
    case False
    with n have "c' = \<lparr>isStopped = False, unsubscribeFn = None\<rparr>" by (cases c') simp
    then show ?thesis using assms
      by (simp add: subscribe_def scripted_def normalize_def error_consumer on_subscription_def
            run_cleanup_def)
  qed
qed

theorem producer_throw_delivered_witness:
  "subscribe (scripted (Emit (Next (1::nat)) (Throw (Thrown ''boom''))))
       (Object (consumer recorder)) ([], ()) =
     Some (None, ([NextEv 1, ErrorEv (Thrown ''boom'')], \<lparr>isStopped = True, unsubscribeFn = None\<rparr>, ()))"
proof -
  have run: "run_producer (Emit (Next (1::nat)) (Throw (Thrown ''boom'')))
          (make_subscriber (consumer recorder))
          ([], \<lparr>isStopped = False, unsubscribeFn = None\<rparr>, ()) =
        (Inl (Thrown ''boom''), ([NextEv 1], \<lparr>isStopped = False, unsubscribeFn = None\<rparr>, ()))"
    by (simp add: make_subscriber_def subscriber_next_def consumer_def recorder_def on_consumer_def)
  show ?thesis using producer_throw_delivered[OF run]
    by (simp add: recorder_def swallow_def)
qed

text \<open>
  Claim C8 as stated fails: a procedure that completes and then throws leaves an
  Observer that has an \<open>error\<close> callback with the completion only.
\<close>

theorem throw_after_complete_is_dropped:
  "subscribe (scripted (Emit Complete (Throw (Thrown ''boom''))))
       (Object (consumer recorder)) ([] :: nat event list, ()) =
     Some (None, ([CompleteEv], \<lparr>isStopped = True, unsubscribeFn = None\<rparr>, ()))"
  by (simp add: subscribe_def scripted_def normalize_def make_subscriber_def complete_consumer
        error_consumer recorder_def swallow_def on_subscription_def run_cleanup_def)

subsection \<open>Runs of the operators on concrete inputs\<close>

lemmas run_defs = subscribe_def normalize_def make_subscriber_def register_def seq_def
  subscriber_next_def subscriber_error_def subscriber_complete_def this_error_def
  run_cleanup_def on_subscription_def stop_def swallow_def unsubscribe_def
  consumer_def on_consumer_def recorder_def downstream_def

text \<open>
  Claim C7 (the code departs from it). \<open>map\<close> with a transform that throws \<open>e\<close>, over
  \<open>of(1)\<close>: the consumer receives \<open>error(e)\<close> and nothing else, but no cleanup is run.
  The upstream subscription completes by itself before its cleanup is registered, and
  the downstream one is terminated before the cleanup of \<open>map\<close> is registered: both slots
  still hold their function when \<open>subscribe\<close> returns, where a cleanup that has run is
  cleared. With a counting cleanup on the upstream producer the count stays \<open>0\<close>.
\<close>

theorem map_throw_leaves_cleanups:
  "subscribe (Observable_map (\<lambda>v. Inl e) (Observable_of [1 :: nat]))
       (Object (consumer (recorder :: (nat, nat event list) observer))) ([], (None, ())) =
     Some (None,
           ([ErrorEv e],
            \<lparr>isStopped = True, unsubscribeFn = Some unsubscribe_upstream\<rparr>,
            (Some ((), \<lparr>isStopped = True, unsubscribeFn = Some (\<lambda>r. (None, r))\<rparr>), ()))) \<and>
   subscribe (Observable_map (\<lambda>v. Inl e)
                (scripted (Emit (Next (1 :: nat)) (Emit Complete (Return (Function (\<lambda>n. (None, Suc n))))))))
       (Object (consumer (recorder :: (nat, nat event list) observer))) ([], (None, 0 :: nat)) =
     Some (None,
           ([ErrorEv e],
            \<lparr>isStopped = True, unsubscribeFn = Some unsubscribe_upstream\<rparr>,
            (Some ((), \<lparr>isStopped = True, unsubscribeFn = Some (\<lambda>n. (None, Suc n))\<rparr>), 0)))"
  by (simp add: run_defs Observable_map_def Observable_of_def Observable_from_def map_observer_def
        map_next_def subscriber_isStopped_def scripted_def)

lemma endless_first:
  "subscriber.next (make_subscriber (take_observer 2 (make_subscriber (consumer recorder)))) 0
     (([], \<lparr>isStopped = False, unsubscribeFn = None\<rparr>, \<lparr>taken = 0, subscription = False\<rparr>),
      \<lparr>isStopped = False, unsubscribeFn = None\<rparr>, r) =
   (None,
    (([NextEv (0 :: nat)], \<lparr>isStopped = False, unsubscribeFn = None\<rparr>, \<lparr>taken = 1, subscription = False\<rparr>),
     \<lparr>isStopped = False, unsubscribeFn = None\<rparr>, r))"
  by (simp add: run_defs take_observer_def take_next_def subscription_unsubscribe_def)

lemma endless_second:
  "subscriber.next (make_subscriber (take_observer 2 (make_subscriber (consumer recorder)))) 1
     (([NextEv (0 :: nat)], \<lparr>isStopped = False, unsubscribeFn = None\<rparr>, \<lparr>taken = 1, subscription = False\<rparr>),
      \<lparr>isStopped = False, unsubscribeFn = None\<rparr>, r) =
   (Some (TypeError ''this.error is not a function''),
    (([NextEv 0, NextEv 1, CompleteEv], \<lparr>isStopped = True, unsubscribeFn = None\<rparr>,
      \<lparr>taken = 2, subscription = False\<rparr>),
     \<lparr>isStopped = False, unsubscribeFn = None\<rparr>, r))"
  by (simp add: run_defs take_observer_def take_next_def subscription_unsubscribe_def)

lemma endless_loop:
  "emit_forever (make_subscriber (take_observer 2 (make_subscriber (consumer recorder)))) 0
     (([], \<lparr>isStopped = False, unsubscribeFn = None\<rparr>, \<lparr>taken = 0, subscription = False\<rparr>),
      \<lparr>isStopped = False, unsubscribeFn = None\<rparr>, r) =
   Some (Inl (TypeError ''this.error is not a function''),
    (([NextEv 0, NextEv 1, CompleteEv], \<lparr>isStopped = True, unsubscribeFn = None\<rparr>,
      \<lparr>taken = 2, subscription = False\<rparr>),
     \<lparr>isStopped = False, unsubscribeFn = None\<rparr>, r))"
  apply (subst emit_forever.simps)
  apply (simp only: endless_first prod.case option.case)
  apply (subst emit_forever.simps)
  apply (simp only: endless_second prod.case option.case add_0)
  done

text \<open>
  Claim C6 (the code departs from it). \<open>take(2)\<close> over the producer that emits
  \<open>0, 1, 2, ...\<close> in a synchronous loop: \<open>subscribe\<close> returns, and the consumer has
  received \<open>next(0)\<close>, \<open>next(1)\<close> and \<open>complete\<close>. The loop is left by the TypeError that
  the second \<open>next\<close> throws, so the producer never returns a cleanup: the upstream slot
  is empty, nothing on the producer's side has changed, and no cleanup has fired.
\<close>

theorem take_two_of_endless:
  "subscribe (Observable_take 2 infinite_producer)
       (Object (consumer recorder)) ([], (None, r)) =
     Some (None,
           ([NextEv 0, NextEv 1, CompleteEv],
            \<lparr>isStopped = True, unsubscribeFn = Some unsubscribe_upstream\<rparr>,
            (Some (\<lparr>taken = 2, subscription = True\<rparr>, \<lparr>isStopped = True, unsubscribeFn = None\<rparr>), r)))"
proof -
  have up: "subscribe infinite_producer
       (Object (take_observer 2 (make_subscriber (normalize (Object (consumer recorder))))))
       (([], \<lparr>isStopped = False, unsubscribeFn = None\<rparr>, \<lparr>taken = 0, subscription = False\<rparr>), r) =
     Some (None,
       (([NextEv 0, NextEv 1, CompleteEv], \<lparr>isStopped = True, unsubscribeFn = None\<rparr>,
         \<lparr>taken = 2, subscription = False\<rparr>),
        \<lparr>isStopped = True, unsubscribeFn = None\<rparr>, r))"
    apply (simp only: subscribe_def infinite_producer_def Observable.sel prod.case normalize_def
        observer_arg.case endless_loop option.case sum.case)
    apply (simp add: run_defs take_observer_def)
    done
  have fn: "subscribeFn (Observable_take 2 infinite_producer)
       (make_subscriber (normalize (Object (consumer recorder))))
       ([], \<lparr>isStopped = False, unsubscribeFn = None\<rparr>, (None, r)) =
     Some (Inr (Function unsubscribe_upstream),
       ([NextEv 0, NextEv 1, CompleteEv], \<lparr>isStopped = True, unsubscribeFn = None\<rparr>,
        (Some (\<lparr>taken = 2, subscription = True\<rparr>, \<lparr>isStopped = True, unsubscribeFn = None\<rparr>), r)))"
    by (simp add: Observable_take_def up)
  show ?thesis
    by (simp add: subscribe_def fn register_def)
qed

subsection \<open>take refines its specification\<close>

lemma replay_simps [simp]:
  "replay obs [] p = p"
  "replay obs (ev # evs) p = replay obs evs (apply_event obs ev p)"
  by (simp_all add: replay_def)


lemma sub_sel [simp]:
  "subscriber.next (make_subscriber X) = subscriber_next X"
  "subscriber.error (make_subscriber X) = subscriber_error X"
  "subscriber.complete (make_subscriber X) = subscriber_complete X"
  by (simp_all add: make_subscriber_def)








text \<open>The upstream subscriber, whose Observer is the one \<open>take\<close> builds.\<close>

lemma U_next:
  "subscriber_next (take_observer N sub) v ((p, d, l), u, r) =
     (if isStopped u then (None, ((p, d, l), u, r))
      else case take_next N sub v ((p, d, l), u, r) of
             (None, s') \<Rightarrow> (None, s')
           | (Some e, s') \<Rightarrow> (Some (TypeError ''this.error is not a function''), s'))"
  by (simp add: subscriber_next_def take_observer_def this_error_def split: prod.splits option.splits)







lemma spec_run_dead [simp]: "spec_run None cs = []"
  by (induction cs) simp_all

lemma spec_state_dead [simp]: "spec_state None cs = None"
  by (induction cs) simp_all





















text \<open>
  The consumer \<open>pushing_back\<close> is the Observer
  \<open>{ next(v) { log.push(v); if (v === 0) sub.next(1) } }\<close>, where \<open>sub\<close> is the subscriber
  that \<open>take\<close> hands upstream for this very Observer: its \<open>next\<close> handler satisfies the
  self-referential equation below, and on the value 1 it behaves as the recorder.
\<close>

lemma pushing_back_on_one:
  "subscriber_next (pushing_back count) 1 = subscriber_next (consumer recorder) 1"
  "subscriber_complete (pushing_back count) = subscriber_complete (consumer recorder)"
  by (auto simp add: subscriber_next_def subscriber_complete_def pushing_back_def consumer_def
        recorder_def seq_def on_consumer_def fun_eq_iff split: prod.splits option.splits)

lemma pushing_back_calls_itself:
  "next (pushing_back count) =
     Some (\<lambda>v.
        seq (on_consumer (\<lambda>log. (None, log @ [NextEv v])))
            (if v = 0
             then upstream (subscriber_next (take_observer count (make_subscriber (pushing_back count))) 1)
             else (\<lambda>s. (None, s))))"
proof -
  have eq: "take_next count (make_subscriber (pushing_back count)) 1 =
        take_next count (subD recorder) 1"
    unfolding take_next_def sub_sel pushing_back_on_one by (rule refl)
  have H: "subscriber_next (take_observer count (make_subscriber (pushing_back count))) 1 s =
        subscriber_next (take_observer count (subD recorder)) 1 s" for s
  proof -
    obtain p d l u r where "s = ((p, d, l), u, r)" by (cases s) auto
    then show ?thesis by (simp add: U_next eq del: One_nat_def)
  qed
  show ?thesis
    by (subst ext [OF H]) (simp add: pushing_back_def del: One_nat_def)
qed


end
